theory Spec2Isabelle
  imports Complex_Main "HOL-Library.Product_Lexorder"
begin

section \<open>Numeric values of the program\<close>

text \<open>
  The program computes with Python floats, numpy floats and, for a negative mass number,
  complex numbers. Finite doubles are idealised as reals (rounding and overflow are not
  modelled), so a float literal such as \<open>28.296\<close> is the real number it denotes.
  Python integers are \<open>int\<close>. What the source's operators do beyond real arithmetic
  is written out: which library a value belongs to (a division by zero raises for plain
  Python operands and gives \<open>inf\<close> or \<open>nan\<close> once a numpy operand takes part), and
  the complex result of a negative base under a fractional power.
\<close>

datatype py_error = ZeroDivisionError | ComplexComparison | NonFiniteComparison

datatype kind = Py | Np

datatype pynum = FloatV kind real | ComplexV kind complex | NonFinite

fun join :: "kind \<Rightarrow> kind \<Rightarrow> kind" where
  "join Py Py = Py"
| "join _ _ = Np"

fun py_add :: "pynum \<Rightarrow> pynum \<Rightarrow> pynum" where
  "py_add (FloatV k x) (FloatV k' y) = FloatV (join k k') (x + y)"
| "py_add (FloatV k x) (ComplexV k' z) = ComplexV (join k k') (of_real x + z)"
| "py_add (ComplexV k z) (FloatV k' y) = ComplexV (join k k') (z + of_real y)"
| "py_add (ComplexV k z) (ComplexV k' w) = ComplexV (join k k') (z + w)"
| "py_add _ _ = NonFinite"

fun py_mul :: "pynum \<Rightarrow> pynum \<Rightarrow> pynum" where
  "py_mul (FloatV k x) (FloatV k' y) = FloatV (join k k') (x * y)"
| "py_mul (FloatV k x) (ComplexV k' z) = ComplexV (join k k') (of_real x * z)"
| "py_mul (ComplexV k z) (FloatV k' y) = ComplexV (join k k') (z * of_real y)"
| "py_mul (ComplexV k z) (ComplexV k' w) = ComplexV (join k k') (z * w)"
| "py_mul _ _ = NonFinite"

text \<open>
  \<open>x / d\<close> for a float divisor \<open>d\<close> of kind \<open>k'\<close>: Python's own division raises
  ZeroDivisionError on a zero divisor; numpy's returns \<open>inf\<close> or \<open>nan\<close> (with a
  warning), here \<open>NonFinite\<close>.
\<close>

fun py_truediv :: "pynum \<Rightarrow> kind \<Rightarrow> real \<Rightarrow> py_error + pynum" where
  "py_truediv (FloatV k x) k' d =
     (if d = 0 then (if join k k' = Py then Inl ZeroDivisionError else Inr NonFinite)
      else Inr (FloatV (join k k') (x / d)))"
| "py_truediv (ComplexV k z) k' d =
     (if d = 0 then (if join k k' = Py then Inl ZeroDivisionError else Inr NonFinite)
      else Inr (ComplexV (join k k') (z / of_real d)))"
| "py_truediv NonFinite k' d = Inr NonFinite"

text \<open>
  \<open>A ** e\<close> for an integer \<open>A\<close> and one of the exponents \<open>2/3\<close>, \<open>1/3\<close> of the
  program (positive, not integral): a float for \<open>A \<ge> 0\<close> (\<open>0.0\<close> at \<open>A = 0\<close>),
  and for \<open>A < 0\<close> the complex number of modulus \<open>|A| ** e\<close> and argument \<open>pi * e\<close>.
\<close>

definition py_pow :: "int \<Rightarrow> real \<Rightarrow> pynum" where
  "py_pow A e =
     (if A > 0 then FloatV Py (real_of_int A powr e)
      else if A = 0 then FloatV Py 0
      else ComplexV Py (rcis (real_of_int (- A) powr e) (pi * e)))"

definition and_then :: "'e + 'a \<Rightarrow> ('a \<Rightarrow> 'e + 'b) \<Rightarrow> 'e + 'b" where
  "and_then m f = (case m of Inl e \<Rightarrow> Inl e | Inr x \<Rightarrow> f x)"

section \<open>The finder's constants (\<open>__init__\<close>)\<close>

definition av :: real where "av = 15.75"
definition as_coeff :: real where "as_coeff = 17.8"
definition ac :: real where "ac = 0.711"
definition aa :: real where "aa = 23.7"
definition ap :: real where "ap = 11.18"

definition magic_numbers :: "int list" where
  "magic_numbers = [2, 8, 20, 28, 50, 82, 126]"

definition base_multiplier :: real where "base_multiplier = 1.234"
definition resonance_factor :: real where "resonance_factor = 1.05"
definition consciousness_level :: real where "consciousness_level = 0.820"
definition golden_ratio :: real where "golden_ratio = 1.618"
definition tesla_numbers :: "int list" where "tesla_numbers = [3, 6, 9]"
definition error_correction :: real where "error_correction = 0.965"

definition stability_threshold :: real where "stability_threshold = 0.5"
definition medical_range :: "real \<times> real" where "medical_range = (0.2, 0.7)"
definition binding_energy_scale :: real where "binding_energy_scale = 0.15"


section \<open>Binding energy\<close>

definition special_cases :: "((int \<times> int) \<times> real) list" where
  "special_cases =
     [((1, 0), 0.0), ((1, 1), 2.225), ((1, 2), 8.482), ((2, 1), 7.718), ((2, 2), 28.296)]"

definition tesla_boost :: "int \<Rightarrow> real" where
  "tesla_boost A =
     fold (\<lambda>tesla_num boost. if A mod tesla_num = 0 then boost * resonance_factor else boost)
       tesla_numbers 1.0"

definition golden_factor :: "int \<Rightarrow> real" where
  "golden_factor A = 1 + 0.01 * sin (real_of_int A / golden_ratio)"

definition consciousness_boost :: real where
  "consciousness_boost = 1 + (consciousness_level * 0.02)"

definition apply_mhm_enhancement :: "int \<Rightarrow> int \<Rightarrow> pynum \<Rightarrow> pynum" where
  "apply_mhm_enhancement Z N base_value =
     (let A = Z + N in
      py_mul (py_mul (py_mul (py_mul base_value (FloatV Py (tesla_boost A)))
                (FloatV Np (golden_factor A)))
              (FloatV Py consciousness_boost))
        (FloatV Py error_correction))"

text \<open>
  The three conditional expressions of the source evaluate their quotient only for
  \<open>A > 0\<close>; their \<open>else 0\<close> is the integer zero, which the later sum turns into a
  float.
\<close>

definition coulomb :: "int \<Rightarrow> int \<Rightarrow> py_error + pynum" where
  "coulomb Z A =
     (if A > 0
      then py_truediv (FloatV Py (- ac * real_of_int (Z ^ 2))) Py (real_of_int A powr (1 / 3))
      else Inr (FloatV Py 0))"

definition asymmetry :: "int \<Rightarrow> int \<Rightarrow> int \<Rightarrow> py_error + pynum" where
  "asymmetry Z N A =
     (if A > 0
      then py_truediv (FloatV Py (- aa * real_of_int ((N - Z) ^ 2))) Py (real_of_int A)
      else Inr (FloatV Py 0))"

definition pairing :: "int \<Rightarrow> int \<Rightarrow> int \<Rightarrow> py_error + pynum" where
  "pairing Z N A =
     (if N mod 2 = 0 \<and> Z mod 2 = 0
      then (if A > 0 then py_truediv (FloatV Py ap) Np (sqrt (real_of_int A))
            else Inr (FloatV Py 0))
      else if N mod 2 = 1 \<and> Z mod 2 = 1
      then (if A > 0 then py_truediv (FloatV Py (- ap)) Np (sqrt (real_of_int A))
            else Inr (FloatV Py 0))
      else Inr (FloatV Py 0))"

definition calculate_binding_energy :: "int \<Rightarrow> int \<Rightarrow> py_error + pynum" where
  "calculate_binding_energy Z N =
     (let A = Z + N in
      case (if A \<le> 4 then map_of special_cases (Z, N) else None) of
        Some v \<Rightarrow> Inr (FloatV Py v)
      | None \<Rightarrow>
          (let volume = FloatV Py (av * real_of_int A);
               surface = py_mul (FloatV Py (- as_coeff)) (py_pow A (2 / 3))
           in and_then (coulomb Z A) (\<lambda>coulomb.
              and_then (asymmetry Z N A) (\<lambda>asymmetry.
              and_then (pairing Z N A) (\<lambda>pairing.
                (let binding_energy =
                       py_add (py_add (py_add (py_add volume surface) coulomb) asymmetry) pairing;
                     binding_energy =
                       (if A > 16
                        then py_mul binding_energy
                               (FloatV Np (1 + binding_energy_scale * ln (real_of_int A)))
                        else binding_energy)
                 in Inr (apply_mhm_enhancement Z N binding_energy)))))))"

section \<open>Stability\<close>

definition known_stable :: "((int \<times> int) \<times> bool) list" where
  "known_stable =
     [((1, 0), False), ((1, 1), True), ((1, 2), False), ((2, 1), True),
      ((2, 2), True), ((6, 6), True), ((6, 8), False), ((8, 8), True)]"

text \<open>
  The float an ordering comparison such as \<open>be_per_nucleon > 8.5\<close> reads. Comparing a
  complex number (a TypeError for a Python complex) or \<open>inf\<close>/\<open>nan\<close> is not
  followed further: the model flags it, and the theorems below show that the program
  never gets there.
\<close>

fun float_value :: "pynum \<Rightarrow> py_error + real" where
  "float_value (FloatV k x) = Inr x"
| "float_value (ComplexV k z) = Inl ComplexComparison"
| "float_value NonFinite = Inl NonFiniteComparison"

definition calculate_stability :: "int \<Rightarrow> int \<Rightarrow> py_error + (real \<times> string)" where
  "calculate_stability Z N =
     (let A = Z + N in
      case map_of known_stable (Z, N) of
        Some is_stable \<Rightarrow>
          Inr (if is_stable then 0.8 else 0.3,
               if is_stable then ''stable'' else ''radioactive'')
      | None \<Rightarrow>
          if Z = 0 then Inr (0.0, ''impossible'')
          else
            (let nz_ratio = real_of_int N / real_of_int Z;
                 optimal_ratio =
                   (if Z \<le> 20 then 1.0
                    else if Z \<le> 40 then 1.0 + 0.015 * real_of_int (Z - 20)
                    else 1.0 + 0.6 * real_of_int (Z - 20) / 60);
                 stability = 0.5;
                 stability = (if Z \<in> set magic_numbers then stability + 0.25 else stability);
                 stability = (if N \<in> set magic_numbers then stability + 0.25 else stability);
                 ratio_deviation = \<bar>nz_ratio - optimal_ratio\<bar>;
                 stability = stability - ratio_deviation * 0.3
             in and_then (calculate_binding_energy Z N) (\<lambda>binding_energy.
                and_then (if A > 0 then py_truediv binding_energy Py (real_of_int A)
                          else Inr (FloatV Py 0)) (\<lambda>be_per_nucleon.
                and_then (float_value be_per_nucleon) (\<lambda>be_per_nucleon.
                  (let stability =
                         (if be_per_nucleon > 8.5 then stability + 0.2
                          else if be_per_nucleon > 7.5 then stability + 0.1
                          else if be_per_nucleon < 6.0 then stability - 0.2
                          else stability);
                       stability = (if Z > 82 then stability - 0.3 else stability);
                       stability = (if Z > 92 then stability - 0.5 else stability);
                       stability = stability * (1 + consciousness_level * 0.05);
                       stability = max 0.0 (min 1.0 stability);
                       decay_mode =
                         (if stability > stability_threshold then ''stable''
                          else if real_of_int N > real_of_int Z * 1.5 then ''beta_minus''
                          else if real_of_int Z > real_of_int N * 1.2 then ''beta_plus''
                          else if Z > 82 then ''alpha''
                          else ''radioactive'')
                   in Inr (stability, decay_mode)))))))"

section \<open>Medical isotope search\<close>

definition known_medical :: "((string \<times> int) \<times> (int \<times> int \<times> string)) list" where
  "known_medical =
     [((''F'', 18), (9, 9, ''PET imaging'')),
      ((''Tc'', 99), (43, 56, ''SPECT imaging'')),
      ((''I'', 131), (53, 78, ''Thyroid treatment'')),
      ((''Co'', 60), (27, 33, ''Radiation therapy'')),
      ((''Lu'', 177), (71, 106, ''Cancer therapy'')),
      ((''Y'', 90), (39, 51, ''Liver cancer''))]"

definition elements_to_check :: "(string \<times> int) list" where
  "elements_to_check =
     [(''F'', 9), (''Tc'', 43), (''I'', 53), (''Co'', 27), (''Lu'', 71), (''Y'', 39),
      (''Re'', 75), (''Sm'', 62), (''Ho'', 67), (''Er'', 68)]"

record isotope =
  iso_symbol :: string
  iso_Z :: int
  iso_N :: int
  iso_A :: int
  iso_stability :: real
  iso_decay_mode :: string
  iso_binding_energy :: pynum
  iso_half_life_hours :: real
  iso_is_known_medical :: bool
  iso_medical_use :: string
  iso_mhm_optimized :: bool

text \<open>The decimal text of an integer, as an f-string prints it.\<close>

fun digits :: "nat \<Rightarrow> string" where
  "digits n =
     (if n < 10 then [char_of (48 + n)] else digits (n div 10) @ [char_of (48 + n mod 10)])"

definition str_int :: "int \<Rightarrow> string" where
  "str_int i = (if i < 0 then CHR ''-'' # digits (nat (- i)) else digits (nat i))"

text \<open>
  The body of the inner loop for one element and one neutron count: \<open>None\<close> when the
  candidate is not accepted, otherwise the dictionary that is appended.
\<close>

definition medical_candidate :: "string \<Rightarrow> int \<Rightarrow> int \<Rightarrow> py_error + isotope option" where
  "medical_candidate element Z N =
     (let A = Z + N in
      and_then (calculate_stability Z N) (\<lambda>(stability, decay_mode).
      and_then (calculate_binding_energy Z N) (\<lambda>binding_energy.
        (let min_stab = fst medical_range;
             max_stab = snd medical_range;
             is_known = (map_of known_medical (element, A) \<noteq> None)
         in if (min_stab < stability \<and> stability < max_stab) \<or> is_known
            then
              (let stability = (if is_known then 0.4 else stability);
                   half_life_hours =
                     (if stability > 0 then exp (10 * stability) / 100 else 0.1)
               in Inr (Some \<lparr>
                    iso_symbol = element @ ''-'' @ str_int A,
                    iso_Z = Z,
                    iso_N = N,
                    iso_A = A,
                    iso_stability = stability,
                    iso_decay_mode = decay_mode,
                    iso_binding_energy = binding_energy,
                    iso_half_life_hours = half_life_hours,
                    iso_is_known_medical = is_known,
                    iso_medical_use =
                      (case map_of known_medical (element, A) of
                         Some (_, _, use) \<Rightarrow> use
                       | None \<Rightarrow> ''Research''),
                    iso_mhm_optimized = True\<rparr>))
            else Inr None))))"

fun neutron_loop :: "string \<Rightarrow> int \<Rightarrow> int list \<Rightarrow> isotope list \<Rightarrow> py_error + isotope list" where
  "neutron_loop element Z [] medical_isotopes = Inr medical_isotopes"
| "neutron_loop element Z (N # Ns) medical_isotopes =
     and_then (medical_candidate element Z N) (\<lambda>c.
       neutron_loop element Z Ns
         (case c of None \<Rightarrow> medical_isotopes
          | Some isotope \<Rightarrow> medical_isotopes @ [isotope]))"

text \<open>\<open>range(Z - 10, Z + 20)\<close> is the list \<open>[Z - 10 .. Z + 19]\<close>.\<close>

fun element_loop :: "(string \<times> int) list \<Rightarrow> isotope list \<Rightarrow> py_error + isotope list" where
  "element_loop [] medical_isotopes = Inr medical_isotopes"
| "element_loop ((element, Z) # rest) medical_isotopes =
     and_then (neutron_loop element Z [Z - 10 .. Z + 19] medical_isotopes)
       (element_loop rest)"

definition relevance_key :: "isotope \<Rightarrow> bool \<times> real" where
  "relevance_key x = (\<not> iso_is_known_medical x, \<bar>iso_stability x - 0.4\<bar>)"

text \<open>
  Python's \<open>list.sort\<close> is stable and compares the key tuples lexicographically, as
  \<open>sort_key\<close> does on pairs.
\<close>

definition find_medical_isotopes :: "py_error + isotope list" where
  "find_medical_isotopes =
     and_then (element_loop elements_to_check []) (\<lambda>medical_isotopes.
       Inr (take 20 (sort_key relevance_key medical_isotopes)))"

section \<open>Validation against known values\<close>








section \<open>The specification's formulas\<close>

text \<open>
  The formulas below follow the words of the specification, not the source: the Tesla
  boost as a product over the moduli, the five semi-empirical terms with their value 0 at
  \<open>A = 0\<close>, the estimate (override literal or enhanced formula), the stability score
  as a sum of bonuses and penalties, and the first-match rule of the decay-mode label.
  The theorems compare them with the functions of the program.
\<close>

definition spec_tesla_boost :: "int \<Rightarrow> real" where
  "spec_tesla_boost A =
     prod_list (map (\<lambda>m. if A mod m = 0 then resonance_factor else 1) [3, 6, 9])"

definition spec_semi_empirical_sum :: "int \<Rightarrow> int \<Rightarrow> real" where
  "spec_semi_empirical_sum Z N =
     (let A = Z + N;
          volume = av * real_of_int A;
          surface = - as_coeff * (real_of_int A powr (2 / 3));
          coulomb =
            (if A = 0 then 0 else - ac * (real_of_int Z)\<^sup>2 / (real_of_int A powr (1 / 3)));
          asymmetry =
            (if A = 0 then 0 else - aa * (real_of_int (N - Z))\<^sup>2 / real_of_int A);
          pairing = (if A = 0 then 0
                     else if even Z \<and> even N then ap / sqrt (real_of_int A)
                     else if odd Z \<and> odd N then - ap / sqrt (real_of_int A)
                     else 0)
      in volume + surface + coulomb + asymmetry + pairing)"

definition spec_formula_estimate :: "int \<Rightarrow> int \<Rightarrow> real" where
  "spec_formula_estimate Z N =
     (let A = Z + N;
          base = spec_semi_empirical_sum Z N;
          scaled = (if A > 16 then base * (1 + 0.15 * ln (real_of_int A)) else base)
      in scaled * spec_tesla_boost A * (1 + 0.01 * sin (real_of_int A / 1.618))
           * (1 + 0.820 * 0.02) * 0.965)"

definition spec_estimate :: "int \<Rightarrow> int \<Rightarrow> real" where
  "spec_estimate Z N =
     (case map_of special_cases (Z, N) of Some v \<Rightarrow> v | None \<Rightarrow> spec_formula_estimate Z N)"

definition spec_is_magic :: "int \<Rightarrow> bool" where
  "spec_is_magic n = (n \<in> {2, 8, 20, 28, 50, 82, 126})"

definition spec_optimal_ratio :: "int \<Rightarrow> real" where
  "spec_optimal_ratio Z =
     (if Z \<le> 20 then 1 else if Z \<le> 40 then 1 + 0.015 * real_of_int (Z - 20)
      else 1 + 0.6 * real_of_int (Z - 20) / 60)"

definition spec_score :: "int \<Rightarrow> int \<Rightarrow> real" where
  "spec_score Z N =
     (let b = spec_estimate Z N / real_of_int (Z + N);
          s = 0.5 + (if spec_is_magic Z then 0.25 else 0)
                + (if spec_is_magic N then 0.25 else 0)
                - 0.3 * \<bar>real_of_int N / real_of_int Z - spec_optimal_ratio Z\<bar>;
          s = s + (if b > 8.5 then 0.2 else if b > 7.5 then 0.1
                   else if b < 6.0 then - 0.2 else 0);
          s = s - (if Z > 82 then 0.3 else 0) - (if Z > 92 then 0.5 else 0);
          s = s * (1 + 0.820 * 0.05)
      in max 0 (min 1 s))"

definition spec_label :: "int \<Rightarrow> int \<Rightarrow> string" where
  "spec_label Z N =
     (if spec_score Z N > 0.5 then ''stable''
      else if real_of_int N > 1.5 * real_of_int Z then ''beta_minus''
      else if real_of_int Z > 1.2 * real_of_int N then ''beta_plus''
      else if Z > 82 then ''alpha''
      else ''radioactive'')"

section \<open>Notions used to state the properties of the search\<close>

text \<open>
  The iteration space of the two nested loops, in the order in which it is visited; the
  candidates one iteration appends; whether an iteration's key is in \<open>known_medical\<close>;
  the half-life computed from the forced stability; and the candidate of fluorine-18.
\<close>

definition sweep :: "(string \<times> int) list \<Rightarrow> (string \<times> int \<times> int) list" where
  "sweep elements =
     concat (map (\<lambda>(element, Z). map (\<lambda>N. (element, Z, N)) [Z - 10 .. Z + 19]) elements)"

definition accepted :: "string \<times> int \<times> int \<Rightarrow> isotope list" where
  "accepted t =
     (case t of (element, Z, N) \<Rightarrow>
        (case medical_candidate element Z N of Inr (Some c) \<Rightarrow> [c] | _ \<Rightarrow> []))"

definition is_known_key :: "string \<times> int \<times> int \<Rightarrow> bool" where
  "is_known_key t = (case t of (element, Z, N) \<Rightarrow> map_of known_medical (element, Z + N) \<noteq> None)"

definition forced_half_life :: real where
  "forced_half_life = exp (10 * 0.4) / 100"

definition f18 :: isotope where
  "f18 = \<lparr>iso_symbol = ''F-18'', iso_Z = 9, iso_N = 9, iso_A = 18, iso_stability = 0.4,
           iso_decay_mode = ''stable'',
           iso_binding_energy = FloatV Np (spec_formula_estimate 9 9),
           iso_half_life_hours = exp (10 * 0.4) / 100,
           iso_is_known_medical = True, iso_medical_use = ''PET imaging'',
           iso_mhm_optimized = True\<rparr>"

section \<open>Notions used to state the properties of the validation\<close>




section \<open>Properties of the binding energy\<close>

lemma tesla_boost_spec: "tesla_boost A = spec_tesla_boost A"
  by (simp add: tesla_boost_def spec_tesla_boost_def tesla_numbers_def)

lemma not_special: "(Z, N) \<notin> set (map fst special_cases) \<Longrightarrow> map_of special_cases (Z, N) = None"
  by (simp add: map_of_eq_None_iff)

lemma be_formula:
  assumes "(Z, N) \<notin> set (map fst special_cases)" and "0 \<le> Z + N"
  shows "calculate_binding_energy Z N = Inr (FloatV Np (spec_formula_estimate Z N))"
proof -
  have m: "map_of special_cases (Z, N) = None" using assms(1) by (rule not_special)
  show ?thesis
  proof (cases "Z + N = 0")
    case True
    then show ?thesis using m
      by (simp add: calculate_binding_energy_def coulomb_def asymmetry_def pairing_def
          and_then_def py_pow_def apply_mhm_enhancement_def spec_formula_estimate_def
          spec_semi_empirical_sum_def tesla_boost_spec golden_factor_def consciousness_boost_def
          error_correction_def golden_ratio_def consciousness_level_def Let_def)
  next
    case False
    with assms(2) have pos: "0 < Z + N" by simp
    then show ?thesis using m
      by (simp add: calculate_binding_energy_def coulomb_def asymmetry_def pairing_def
          and_then_def py_pow_def apply_mhm_enhancement_def spec_formula_estimate_def
          spec_semi_empirical_sum_def tesla_boost_spec golden_factor_def consciousness_boost_def
          error_correction_def golden_ratio_def consciousness_level_def Let_def
          binding_energy_scale_def even_iff_mod_2_eq_zero odd_iff_mod_2_eq_one)
  qed
qed

lemma special_hit:
  assumes "map_of special_cases (Z, N) = Some v"
  shows "calculate_binding_energy Z N = Inr (FloatV Py v)"
proof -
  from assms have "(Z, N) \<in> set (map fst special_cases)"
    by (metis map_of_eq_None_iff option.distinct(1) set_map)
  then have "Z + N \<le> 4" by (auto simp: special_cases_def)
  then show ?thesis using assms by (simp add: calculate_binding_energy_def)
qed

lemma be_float:
  assumes "0 \<le> Z + N"
  shows "\<exists>k. calculate_binding_energy Z N = Inr (FloatV k (spec_estimate Z N))"
proof (cases "map_of special_cases (Z, N)")
  case None
  then have "(Z, N) \<notin> set (map fst special_cases)" by (simp add: map_of_eq_None_iff)
  from be_formula[OF this assms] None show ?thesis by (simp add: spec_estimate_def)
next
  case (Some v)
  then show ?thesis by (simp add: special_hit spec_estimate_def)
qed

lemma be_negative:
  assumes "Z + N < 0"
  shows "\<exists>z. calculate_binding_energy Z N = Inr (ComplexV Np z)"
proof -
  from assms have "(Z, N) \<notin> set (map fst special_cases)"
    by (auto simp: special_cases_def)
  then have m: "map_of special_cases (Z, N) = None" by (rule not_special)
  show ?thesis using assms
    by (simp add: calculate_binding_energy_def m coulomb_def asymmetry_def pairing_def
        and_then_def py_pow_def apply_mhm_enhancement_def Let_def)
qed

lemma be_total: "\<exists>v. calculate_binding_energy Z N = Inr v"
proof (cases "0 \<le> Z + N")
  case True
  from be_float[OF this] show ?thesis by blast
next
  case False
  then have "Z + N < 0" by simp
  from be_negative[OF this] show ?thesis by blast
qed

lemma stability_eq:
  assumes "Z \<noteq> 0" and "0 < Z + N" and "map_of known_stable (Z, N) = None"
  shows "calculate_stability Z N = Inr (spec_score Z N, spec_label Z N)"
proof -
  from be_float[of Z N] assms(2) obtain k where
    k: "calculate_binding_energy Z N = Inr (FloatV k (spec_estimate Z N))" by auto
  have nz: "real_of_int (Z + N) \<noteq> 0" using assms(2) by simp
  define b where "b = spec_estimate Z N / real_of_int (Z + N)"
  have bdiv: "py_truediv (FloatV k (spec_estimate Z N)) Py (real_of_int (Z + N)) =
       Inr (FloatV k b)"
    using nz by (cases k) (simp_all add: b_def)
  have pos: "(0 < Z + N) = True" using assms(2) by simp
  have zf: "(Z = 0) = False" using assms(1) by simp
  define opt where "opt = (if Z \<le> 20 then 1.0
                    else if Z \<le> 40 then 1.0 + 0.015 * real_of_int (Z - 20)
                    else 1.0 + 0.6 * real_of_int (Z - 20) / 60)"
  define st1 where "st1 = (if Z \<in> set magic_numbers then 0.5 + 0.25 else (0.5::real))"
  define st2 where "st2 = (if N \<in> set magic_numbers then st1 + 0.25 else st1)"
  define st3 where "st3 = st2 - \<bar>real_of_int N / real_of_int Z - opt\<bar> * 0.3"
  define st4 where "st4 = (if b > 8.5 then st3 + 0.2 else if b > 7.5 then st3 + 0.1
                           else if b < 6.0 then st3 - 0.2 else st3)"
  define st5 where "st5 = (if Z > 82 then st4 - 0.3 else st4)"
  define st6 where "st6 = (if Z > 92 then st5 - 0.5 else st5)"
  define st7 where "st7 = st6 * (1 + consciousness_level * 0.05)"
  define st8 where "st8 = max 0.0 (min 1.0 st7)"
  have model: "calculate_stability Z N = Inr (st8,
         (if st8 > stability_threshold then ''stable''
          else if real_of_int N > real_of_int Z * 1.5 then ''beta_minus''
          else if real_of_int Z > real_of_int N * 1.2 then ''beta_plus''
          else if Z > 82 then ''alpha''
          else ''radioactive''))"
    unfolding calculate_stability_def st8_def st7_def st6_def st5_def st4_def st3_def st2_def
      st1_def opt_def b_def[symmetric]
    by (simp only: Let_def k bdiv and_then_def assms(3) option.case sum.case pos zf if_True
        if_False float_value.simps)
  have o: "opt = spec_optimal_ratio Z" by (simp add: opt_def spec_optimal_ratio_def)
  have e1: "st1 = 0.5 + (if spec_is_magic Z then 0.25 else 0)"
    by (simp add: st1_def spec_is_magic_def magic_numbers_def)
  have e2: "st2 = st1 + (if spec_is_magic N then 0.25 else 0)"
    by (simp add: st2_def spec_is_magic_def magic_numbers_def)
  have e3: "st3 = st2 - 0.3 * \<bar>real_of_int N / real_of_int Z - spec_optimal_ratio Z\<bar>"
    by (simp add: st3_def o)
  have e4: "st4 = st3 + (if b > 8.5 then 0.2 else if b > 7.5 then 0.1
                         else if b < 6.0 then - 0.2 else 0)"
    by (simp add: st4_def)
  have e5: "st5 = st4 - (if Z > 82 then 0.3 else 0)" by (simp add: st5_def)
  have e6: "st6 = st5 - (if Z > 92 then 0.5 else 0)" by (simp add: st6_def)
  have e7: "st7 = st6 * (1 + 0.820 * 0.05)" by (simp add: st7_def consciousness_level_def)
  have e8: "st8 = max 0 (min 1 st7)" by (simp add: st8_def)
  have score: "st8 = spec_score Z N"
    unfolding spec_score_def Let_def b_def[symmetric]
    by (simp only: e8 e7 e6 e5 e4 e3 e2 e1)
  have th: "stability_threshold = 0.5" by (simp add: stability_threshold_def)
  have c1: "real_of_int Z * 1.5 = 1.5 * real_of_int Z" by simp
  have c2: "real_of_int N * 1.2 = 1.2 * real_of_int N" by simp
  show ?thesis
    unfolding model spec_label_def by (simp only: score th c1 c2)
qed


section \<open>Properties of the stability classifier\<close>

lemma not_known_stable:
  "(Z, N) \<notin> set (map fst known_stable) \<Longrightarrow> map_of known_stable (Z, N) = None"
  by (simp add: map_of_eq_None_iff)

lemma stability_override:
  assumes "map_of known_stable (Z, N) = Some st"
  shows "calculate_stability Z N =
           Inr (if st then 0.8 else 0.3, if st then ''stable'' else ''radioactive'')"
  using assms by (simp add: calculate_stability_def)

lemma stability_impossible:
  assumes "map_of known_stable (0, N) = None"
  shows "calculate_stability 0 N = Inr (0, ''impossible'')"
  using assms by (simp add: calculate_stability_def)

lemma score_spec_range: "0 \<le> spec_score Z N \<and> spec_score Z N \<le> 1"
  unfolding spec_score_def Let_def by (simp only: max.cobounded1 simp_thms)

lemma stability_nonpositive_mass:
  assumes "Z \<noteq> 0" and "\<not> 0 < Z + N" and "map_of known_stable (Z, N) = None"
  shows "\<exists>r. calculate_stability Z N = Inr r"
proof -
  obtain v where v: "calculate_binding_energy Z N = Inr v" using be_total by blast
  have pos: "(0 < Z + N) = False" using assms(2) by simp
  have zf: "(Z = 0) = False" using assms(1) by simp
  show ?thesis
    unfolding calculate_stability_def
    by (simp only: Let_def v and_then_def assms(3) option.case sum.case pos zf if_True
        if_False float_value.simps) blast
qed

lemma stability_total: "\<exists>r. calculate_stability Z N = Inr r"
proof (cases "map_of known_stable (Z, N)")
  case (Some st)
  from stability_override[OF this] show ?thesis by blast
next
  case None
  show ?thesis
  proof (cases "Z = 0")
    case True
    with None stability_impossible show ?thesis by blast
  next
    case False
    show ?thesis
    proof (cases "0 < Z + N")
      case True
      from stability_eq[OF False True None] show ?thesis by blast
    next
      case neg: False
      from stability_nonpositive_mass[OF False neg None] show ?thesis .
    qed
  qed
qed

section \<open>Properties of the search loops\<close>

lemma candidate_eq:
  assumes "calculate_stability Z N = Inr (s, d)" and "calculate_binding_energy Z N = Inr be"
  shows "medical_candidate el Z N =
     Inr (if (0.2 < s \<and> s < 0.7) \<or> is_known_key (el, Z, N)
          then Some \<lparr>
                iso_symbol = el @ ''-'' @ str_int (Z + N),
                iso_Z = Z, iso_N = N, iso_A = Z + N,
                iso_stability = (if is_known_key (el, Z, N) then 0.4 else s),
                iso_decay_mode = d,
                iso_binding_energy = be,
                iso_half_life_hours =
                  (if is_known_key (el, Z, N) then forced_half_life
                   else if s > 0 then exp (10 * s) / 100 else 0.1),
                iso_is_known_medical = is_known_key (el, Z, N),
                iso_medical_use =
                  (case map_of known_medical (el, Z + N) of
                     Some (_, _, use) \<Rightarrow> use | None \<Rightarrow> ''Research''),
                iso_mhm_optimized = True\<rparr>
          else None)"
proof (cases "is_known_key (el, Z, N)")
  case True
  then have k: "map_of known_medical (el, Z + N) \<noteq> None"
    unfolding is_known_key_def prod.case by blast
  have p: "(0::real) < 0.4" by simp
  show ?thesis
    unfolding medical_candidate_def forced_half_life_def
    by (simp only: Let_def assms and_then_def sum.case prod.case True k simp_thms if_True p
        not_False_eq_True)
next
  case False
  then have k: "map_of known_medical (el, Z + N) = None"
    unfolding is_known_key_def prod.case by blast
  have m: "fst medical_range = 0.2" "snd medical_range = 0.7" by (simp_all add: medical_range_def)
  show ?thesis
    unfolding medical_candidate_def
    by (simp only: Let_def assms and_then_def sum.case prod.case False k simp_thms if_False m
        option.case if_distrib[of Inr] if_distrib[of Some])
qed

lemma candidate_total: "\<exists>c. medical_candidate el Z N = Inr c"
proof -
  obtain s d where "calculate_stability Z N = Inr (s, d)"
    using stability_total[of Z N] by (metis surj_pair)
  moreover obtain be where "calculate_binding_energy Z N = Inr be" using be_total by blast
  ultimately show ?thesis using candidate_eq by blast
qed

lemma neutron_loop_eq:
  "neutron_loop el Z Ns acc = Inr (acc @ concat (map (\<lambda>N. accepted (el, Z, N)) Ns))"
proof (induction Ns arbitrary: acc)
  case Nil
  show ?case by simp
next
  case (Cons N Ns)
  obtain c where c: "medical_candidate el Z N = Inr c" using candidate_total by blast
  show ?case by (cases c) (simp_all add: c and_then_def Cons.IH accepted_def)
qed

lemma element_loop_eq:
  "element_loop els acc = Inr (acc @ concat (map accepted (sweep els)))"
proof (induction els arbitrary: acc)
  case Nil
  show ?case by (simp add: sweep_def)
next
  case (Cons e els)
  obtain el Z where e: "e = (el, Z)" by (cases e)
  show ?case
    by (simp add: e neutron_loop_eq and_then_def Cons.IH sweep_def comp_def)
qed

lemma find_eq:
  "find_medical_isotopes =
     Inr (take 20 (sort_key relevance_key (concat (map accepted (sweep elements_to_check)))))"
  by (simp add: find_medical_isotopes_def element_loop_eq and_then_def)

lemma set_sweep:
  "set (sweep els) = {(el, Z, N). (el, Z) \<in> set els \<and> Z - 10 \<le> N \<and> N < Z + 20}"
  by (auto simp: sweep_def)

lemma accepted_props:
  assumes "c \<in> set (accepted (el, Z, N))"
  shows "medical_candidate el Z N = Inr (Some c)"
    and "iso_is_known_medical c = is_known_key (el, Z, N)"
    and "iso_is_known_medical c \<Longrightarrow> iso_stability c = 0.4"
    and "iso_is_known_medical c \<Longrightarrow> iso_half_life_hours c = forced_half_life"
proof -
  show m: "medical_candidate el Z N = Inr (Some c)"
    using assms by (auto simp: accepted_def split: sum.splits option.splits)
  obtain s d where s: "calculate_stability Z N = Inr (s, d)"
    using stability_total[of Z N] by (metis surj_pair)
  obtain be where be: "calculate_binding_energy Z N = Inr be" using be_total by blast
  note e = candidate_eq[OF s be, of el]
  from m e show "iso_is_known_medical c = is_known_key (el, Z, N)"
    by (auto split: if_splits)
  from m e show "iso_is_known_medical c \<Longrightarrow> iso_stability c = 0.4"
    by (auto split: if_splits)
  from m e show "iso_is_known_medical c \<Longrightarrow> iso_half_life_hours c = forced_half_life"
    by (auto split: if_splits)
qed

lemma in_all_accepted:
  assumes "c \<in> set (concat (map accepted ts))"
  shows "\<exists>el Z N. (el, Z, N) \<in> set ts \<and> c \<in> set (accepted (el, Z, N))"
  using assms by auto

lemma key_order:
  assumes "relevance_key x \<le> relevance_key y"
  shows "iso_is_known_medical y \<longrightarrow> iso_is_known_medical x"
    and "iso_is_known_medical x = iso_is_known_medical y \<longrightarrow>
           \<bar>iso_stability x - 0.4\<bar> \<le> \<bar>iso_stability y - 0.4\<bar>"
  using assms by (auto simp: relevance_key_def less_eq_prod_def)

lemma accepted_label:
  assumes "c \<in> set (accepted (el, Z, N))"
  shows "\<exists>s. calculate_stability (iso_Z c) (iso_N c) = Inr (s, iso_decay_mode c)"
proof -
  have m: "medical_candidate el Z N = Inr (Some c)" using assms by (rule accepted_props(1))
  obtain s d where s: "calculate_stability Z N = Inr (s, d)"
    using stability_total[of Z N] by (metis surj_pair)
  obtain be where be: "calculate_binding_energy Z N = Inr be" using be_total by blast
  from m candidate_eq[OF s be, of el] have "iso_Z c = Z \<and> iso_N c = N \<and> iso_decay_mode c = d"
    by (auto split: if_splits)
  with s show ?thesis by simp
qed

section \<open>Numeric bounds at fluorine-18 and at the neutron count -1\<close>

lemma known_in_sweep:
  "filter is_known_key (sweep elements_to_check) =
     [(''F'', 9, 9), (''Tc'', 43, 56), (''Co'', 27, 33), (''Y'', 39, 51)]"
  by code_simp

lemma pow_18_bounds:
  "(18::real) powr (2 / 3) \<le> 7" "2 \<le> (18::real) powr (1 / 3)" "4 \<le> sqrt (18::real)"
proof -
  have sq: "(18::real) powr 2 = 324" and c7: "(7::real) powr 3 = 343"
    and c2: "(2::real) powr 3 = 8" by simp_all
  have "(18::real) powr (2 / 3) = (18 powr 2) powr (1 / 3)" by (subst powr_powr) simp
  also have "\<dots> = 324 powr (1 / 3)" by (simp only: sq)
  also have "\<dots> \<le> 343 powr (1 / 3)" by (rule powr_mono2) simp_all
  also have "\<dots> = ((7::real) powr 3) powr (1 / 3)" by (simp only: c7)
  also have "\<dots> = 7" by (subst powr_powr) simp
  finally show "(18::real) powr (2 / 3) \<le> 7" .
  have "(2::real) = (2 powr 3) powr (1 / 3)" by (subst powr_powr) simp
  also have "\<dots> = 8 powr (1 / 3)" by (simp only: c2)
  also have "\<dots> \<le> 18 powr (1 / 3)" by (rule powr_mono2) simp_all
  finally show "2 \<le> (18::real) powr (1 / 3)" .
  show "4 \<le> sqrt (18::real)" by (rule real_le_rsqrt) simp
qed

lemma semi_empirical_sum_F18: "126 \<le> spec_semi_empirical_sum 9 9"
proof -
  define p where "p = (18::real) powr (2 / 3)"
  define q where "q = (18::real) powr (1 / 3)"
  define r where "r = sqrt (18::real)"
  define cq where "cq = 0.711 * 81 / q"
  define cr where "cr = 11.18 / r"
  have p: "p \<le> 7" and q: "2 \<le> q" and r: "4 \<le> r"
    using pow_18_bounds by (simp_all add: p_def q_def r_def)
  have s: "spec_semi_empirical_sum 9 9 = 15.75 * 18 - 17.8 * p - cq - cr"
    by (simp add: spec_semi_empirical_sum_def av_def as_coeff_def ac_def aa_def ap_def p_def q_def
        r_def cq_def cr_def)
  have "cq \<le> 0.711 * 81 / 2" unfolding cq_def using q by (intro divide_left_mono) simp_all
  then have b: "cq \<le> 29" by simp
  have "cr \<le> 11.18 / 4" unfolding cr_def using r by (intro divide_left_mono) simp_all
  then have c: "cr \<le> 3" by simp
  from p b c show ?thesis unfolding s by simp
qed

lemma estimate_F18: "108 \<le> spec_formula_estimate 9 9"
proof -
  define S where "S = spec_semi_empirical_sum 9 9"
  define L where "L = 1 + 0.15 * ln (18::real)"
  define t where "t = sin (18 / 1.618 :: real)"
  define G where "G = 1 + 0.01 * t"
  have S: "126 \<le> S" using semi_empirical_sum_F18 by (simp add: S_def)
  have L: "1 \<le> L" by (simp add: L_def)
  have "- 1 \<le> t" unfolding t_def by (rule sin_ge_minus_one)
  then have G: "0.99 \<le> G" by (simp add: G_def)
  have e: "spec_formula_estimate 9 9 = S * L * 1.05 ^ 3 * G * (1 + 0.820 * 0.02) * 0.965"
    by (simp add: spec_formula_estimate_def spec_tesla_boost_def resonance_factor_def S_def L_def G_def
        t_def power3_eq_cube)
  have SL: "126 \<le> S * L"
  proof -
    have "126 * 1 \<le> S * L" using S L by (intro mult_mono) simp_all
    then show ?thesis by simp
  qed
  have "126 * 0.99 \<le> (S * L) * G" using SL G by (intro mult_mono) simp_all
  then have "124 \<le> S * L * G" by simp
  then have "124 * (1.05 ^ 3 * (1 + 0.820 * 0.02) * 0.965) \<le>
             S * L * G * (1.05 ^ 3 * (1 + 0.820 * 0.02) * 0.965 :: real)"
    by (intro mult_right_mono) simp_all
  then have "108 \<le> S * L * G * (1.05 ^ 3 * (1 + 0.820 * 0.02) * 0.965 :: real)"
    by (simp add: power3_eq_cube)
  also have "\<dots> = spec_formula_estimate 9 9" unfolding e by (simp only: mult_ac)
  finally show ?thesis .
qed

lemma F18_stable: "0.5 < spec_score 9 9" "spec_label 9 9 = ''stable''"
proof -
  define b where "b = spec_estimate 9 9 / real_of_int (9 + 9)"
  have "spec_estimate 9 9 = spec_formula_estimate 9 9"
    by (simp add: spec_estimate_def special_cases_def)
  with estimate_F18 have "6 \<le> b" by (simp add: b_def)
  define adj :: real where
    "adj = (if b > 8.5 then 0.2 else if b > 7.5 then 0.1 else if b < 6.0 then - 0.2 else 0)"
  have adj: "0 \<le> adj" using \<open>6 \<le> b\<close> by (simp add: adj_def)
  have m: "spec_is_magic 9 = False" by (simp add: spec_is_magic_def)
  have o: "spec_optimal_ratio 9 = 1" by (simp add: spec_optimal_ratio_def)
  have z: "((9::int) > 82) = False" "((9::int) > 92) = False" by simp_all
  have s: "spec_score 9 9 = max 0 (min 1 ((0.5 + adj) * (1 + 0.820 * 0.05)))"
    unfolding spec_score_def Let_def b_def[symmetric] adj_def[symmetric]
    by (simp only: m o z if_False) simp
  have "0.5 < (0.5 + adj) * (1 + 0.820 * 0.05)"
  proof -
    have "0.5 * (1 + 0.820 * 0.05) \<le> (0.5 + adj) * (1 + 0.820 * 0.05)"
      using adj by (intro mult_right_mono) simp_all
    then show ?thesis by simp
  qed
  then show "0.5 < spec_score 9 9" unfolding s by simp
  then show "spec_label 9 9 = ''stable''" by (simp add: spec_label_def)
qed





section \<open>Known medical isotopes come first\<close>

lemma sorted_min_prefix:
  assumes "sorted (map f ys)" and "\<forall>y\<in>set ys. kmin \<le> f y"
  shows "filter (\<lambda>y. f y = kmin) ys = takeWhile (\<lambda>y. f y = kmin) ys"
  using assms
proof (induction ys)
  case Nil
  show ?case by simp
next
  case (Cons y ys)
  show ?case
  proof (cases "f y = kmin")
    case True
    with Cons show ?thesis by simp
  next
    case False
    with Cons.prems(2) have "kmin < f y" by (simp add: less_le)
    with Cons.prems(1) have "\<forall>z\<in>set ys. f z \<noteq> kmin" by auto
    then have "filter (\<lambda>y. f y = kmin) ys = []" by (simp add: filter_empty_conv)
    with False show ?thesis by simp
  qed
qed

lemma min_prefix_of_sort:
  assumes "\<forall>x\<in>set xs. kmin \<le> f x"
  shows "take (length (filter (\<lambda>x. f x = kmin) xs)) (sort_key f xs) = filter (\<lambda>x. f x = kmin) xs"
proof -
  let ?ys = "sort_key f xs"
  let ?P = "\<lambda>y. f y = kmin"
  have s: "sorted (map f ?ys)" by simp
  have b: "\<forall>y\<in>set ?ys. kmin \<le> f y" using assms by simp
  have e: "filter ?P ?ys = filter ?P xs" by (rule sort_key_stable)
  have "filter ?P ?ys = takeWhile ?P ?ys" by (rule sorted_min_prefix[OF s b])
  also have "\<dots> = take (length (takeWhile ?P ?ys)) ?ys" by (rule takeWhile_eq_take)
  finally have "filter ?P ?ys = take (length (filter ?P ?ys)) ?ys"
    using \<open>filter ?P ?ys = takeWhile ?P ?ys\<close> by simp
  then show ?thesis using e by simp
qed

lemma key_lower_bound: "(False, 0) \<le> relevance_key c"
  by (simp add: relevance_key_def less_eq_prod_def)

lemma key_of_accepted:
  assumes "c \<in> set (concat (map accepted ts))"
  shows "(relevance_key c = (False, 0)) = iso_is_known_medical c"
proof -
  from assms obtain el Z N where "c \<in> set (accepted (el, Z, N))" by auto
  from accepted_props(3)[OF this] show ?thesis by (auto simp: relevance_key_def)
qed

lemma filter_known_accepted:
  "filter iso_is_known_medical (concat (map accepted ts)) =
     concat (map accepted (filter is_known_key ts))"
proof (induction ts)
  case Nil
  show ?case by simp
next
  case (Cons t ts)
  obtain el Z N where t: "t = (el, Z, N)" by (cases t)
  have "\<forall>c\<in>set (accepted t). iso_is_known_medical c = is_known_key t"
    using accepted_props(2) t by blast
  then have "filter iso_is_known_medical (accepted t) = (if is_known_key t then accepted t else [])"
    by (auto simp: filter_empty_conv filter_id_conv)
  with Cons.IH show ?case by simp
qed

lemma known_first:
  fixes ts
  defines "known \<equiv> concat (map accepted (filter is_known_key ts))"
  shows "take (length known) (sort_key relevance_key (concat (map accepted ts))) = known"
proof -
  let ?xs = "concat (map accepted ts)"
  have "filter (\<lambda>x. relevance_key x = (False, 0)) ?xs = filter iso_is_known_medical ?xs"
    by (rule filter_cong[OF refl]) (rule key_of_accepted)
  also have "\<dots> = known" unfolding known_def by (rule filter_known_accepted)
  finally have f: "filter (\<lambda>x. relevance_key x = (False, 0)) ?xs = known" .
  have "\<forall>x\<in>set ?xs. (False, 0) \<le> relevance_key x" using key_lower_bound by blast
  from min_prefix_of_sort[OF this] f show ?thesis by simp
qed

lemma known_accepted:
  assumes "is_known_key (el, Z, N)"
    and "calculate_stability Z N = Inr (s, d)" and "calculate_binding_energy Z N = Inr be"
  shows "accepted (el, Z, N) =
     [\<lparr>iso_symbol = el @ ''-'' @ str_int (Z + N),
       iso_Z = Z, iso_N = N, iso_A = Z + N,
       iso_stability = 0.4,
       iso_decay_mode = d,
       iso_binding_energy = be,
       iso_half_life_hours = forced_half_life,
       iso_is_known_medical = True,
       iso_medical_use =
         (case map_of known_medical (el, Z + N) of
            Some (_, _, use) \<Rightarrow> use | None \<Rightarrow> ''Research''),
       iso_mhm_optimized = True\<rparr>]"
  unfolding accepted_def prod.case candidate_eq[OF assms(2,3)]
  by (simp only: assms(1) simp_thms if_True sum.case option.case)

lemma known_accepted_single:
  assumes "is_known_key t"
  shows "\<exists>c. accepted t = [c] \<and> iso_is_known_medical c"
proof -
  obtain el Z N where t: "t = (el, Z, N)" by (cases t)
  obtain s d where s: "calculate_stability Z N = Inr (s, d)"
    using stability_total[of Z N] by (metis surj_pair)
  obtain be where be: "calculate_binding_energy Z N = Inr be" using be_total by blast
  from known_accepted[OF assms[unfolded t] s be] show ?thesis unfolding t by simp
qed

lemma str_int_18: "str_int 18 = ''18''"
  by code_simp

lemma f18_stability: "calculate_stability 9 9 = Inr (spec_score 9 9, ''stable'')"
proof -
  have "map_of known_stable ((9::int), (9::int)) = None" by (simp add: known_stable_def)
  from stability_eq[OF _ _ this] F18_stable(2) show ?thesis by simp
qed

lemma f18_binding_energy: "calculate_binding_energy 9 9 = Inr (FloatV Np (spec_formula_estimate 9 9))"
proof -
  have "((9::int), (9::int)) \<notin> set (map fst special_cases)" by (simp add: special_cases_def)
  from be_formula[OF this] show ?thesis by simp
qed

lemma f18_known: "is_known_key (''F'', 9, 9)"
  by (simp add: is_known_key_def known_medical_def)

lemma f18_accepted: "accepted (''F'', 9, 9) = [f18]"
  unfolding known_accepted[OF f18_known f18_stability f18_binding_energy]
  by (simp add: f18_def str_int_18 known_medical_def forced_half_life_def)

lemma result_prefix:
  "\<exists>ms c2 c3 c4. find_medical_isotopes = Inr ms \<and> take 4 ms = [f18, c2, c3, c4]
      \<and> iso_is_known_medical c2"
proof -
  let ?ts = "sweep elements_to_check"
  let ?all = "concat (map accepted ?ts)"
  let ?known = "concat (map accepted (filter is_known_key ?ts))"
  obtain c2 where c2: "accepted (''Tc'', 43, 56) = [c2]" "iso_is_known_medical c2"
    using known_accepted_single[of "(''Tc'', 43, 56)"]
    by (auto simp: is_known_key_def known_medical_def)
  obtain c3 where c3: "accepted (''Co'', 27, 33) = [c3]"
    using known_accepted_single[of "(''Co'', 27, 33)"]
    by (auto simp: is_known_key_def known_medical_def)
  obtain c4 where c4: "accepted (''Y'', 39, 51) = [c4]"
    using known_accepted_single[of "(''Y'', 39, 51)"]
    by (auto simp: is_known_key_def known_medical_def)
  have k: "?known = [f18, c2, c3, c4]"
    by (simp add: known_in_sweep f18_accepted c2 c3 c4)
  then have len: "length ?known = 4" by simp
  from known_first[of ?ts] have "take 4 (sort_key relevance_key ?all) = ?known"
    by (simp only: len)
  then have "take 4 (take 20 (sort_key relevance_key ?all)) = [f18, c2, c3, c4]"
    by (simp add: k)
  with find_eq c2(2) show ?thesis by blast
qed

section \<open>Properties of the validation loop\<close>






section \<open>Light-nuclide overrides\<close>

text \<open>
  C3. For each of the five keys (1,0), (1,1), (1,2), (2,1), (2,2) of the light-nuclide
  table, \<open>calculate_binding_energy\<close> returns the table's literal as it stands, a plain
  Python float to which neither the heavy-nucleus scaling nor the enhancement is applied;
  in particular the results for (2,2) and (1,1) are 28.296 and 2.225.
\<close>

theorem override_returns_literal:
  "map (\<lambda>(Z, N). calculate_binding_energy Z N) [(1, 0), (1, 1), (1, 2), (2, 1), (2, 2)]
     = map (\<lambda>v. Inr (FloatV Py v)) [0.0, 2.225, 8.482, 7.718, 28.296]
   \<and> map fst special_cases = [(1, 0), (1, 1), (1, 2), (2, 1), (2, 2)]
   \<and> calculate_binding_energy 2 2 = Inr (FloatV Py 28.296)
   \<and> calculate_binding_energy 1 1 = Inr (FloatV Py 2.225)"
  by (simp add: calculate_binding_energy_def special_cases_def)

section \<open>The binding-energy formula\<close>

text \<open>
  C2. For every isotope key (Z, N), with mass number \<open>A = Z + N \<ge> 0\<close>, that is not
  one of the five light-nuclide override keys, \<open>calculate_binding_energy\<close> returns the
  semi-empirical sum (volume + surface + Coulomb + asymmetry + parity-dependent pairing),
  multiplied by \<open>1 + 0.15 ln A\<close> exactly when \<open>A > 16\<close>, then multiplied by the
  Tesla boost, the golden factor \<open>1 + 0.01 sin (A / 1.618)\<close>, the consciousness boost
  \<open>1 + 0.820 * 0.02\<close> and the error correction \<open>0.965\<close>. The Tesla boost is the
  product over the moduli 3, 6, 9 of the resonance factor where the modulus divides
  \<open>A\<close>: the resonance factor cubed at \<open>A = 18\<close>, and 1 at \<open>A = 17\<close>.
\<close>

theorem binding_energy_formula:
  assumes "(Z, N) \<notin> set (map fst special_cases)" and "0 \<le> Z + N"
  shows "calculate_binding_energy Z N = Inr (FloatV Np (spec_formula_estimate Z N))
         \<and> tesla_boost 18 = resonance_factor ^ 3 \<and> tesla_boost 17 = 1"
proof -
  have "tesla_boost 18 = resonance_factor ^ 3"
    by (simp add: tesla_boost_def tesla_numbers_def power3_eq_cube)
  moreover have "tesla_boost 17 = 1"
    by (simp add: tesla_boost_def tesla_numbers_def)
  ultimately show ?thesis using be_formula[OF assms] by simp
qed

text \<open>The formula at fluorine-18 and, with all terms short-circuited, at \<open>A = 0\<close>.\<close>

theorem binding_energy_formula_witness:
  "calculate_binding_energy 9 9 = Inr (FloatV Np (spec_formula_estimate 9 9))
   \<and> calculate_binding_energy 0 0 = Inr (FloatV Np 0)"
proof -
  have a: "((9::int), (9::int)) \<notin> set (map fst special_cases)"
    by (simp add: special_cases_def)
  have b: "((0::int), (0::int)) \<notin> set (map fst special_cases)"
    by (simp add: special_cases_def)
  have z: "spec_formula_estimate 0 0 = 0"
    by (simp add: spec_formula_estimate_def spec_semi_empirical_sum_def)
  from binding_energy_formula[OF a] binding_energy_formula[OF b] z show ?thesis by simp
qed

section \<open>The stability score and the decay-mode label\<close>

text \<open>
  C4. For every (Z, N) with \<open>Z \<ge> 1\<close> (and \<open>N \<ge> 0\<close>, as every isotope key has)
  that is not a stability-override key, the score of \<open>calculate_stability\<close> is: 0.5,
  plus 0.25 if Z is a magic number and 0.25 if N is, minus 0.3 times the distance of
  \<open>N / Z\<close> from the optimal ratio (piecewise in Z), plus exactly one adjustment by the
  binding energy per nucleon in priority order (+0.2 above 8.5, else +0.1 above 7.5, else
  -0.2 below 6.0, else none), minus 0.3 if \<open>Z > 82\<close> and a further 0.5 if \<open>Z > 92\<close>,
  times \<open>1 + 0.820 * 0.05\<close>, clamped to [0, 1]; and the label is chosen by the first
  matching rule: score above 0.5 gives "stable", else \<open>N > 1.5 Z\<close> gives "beta_minus",
  else \<open>Z > 1.2 N\<close> gives "beta_plus", else \<open>Z > 82\<close> gives "alpha", else
  "radioactive".
\<close>

theorem stability_score_and_label:
  assumes "1 \<le> Z" and "0 \<le> N" and "(Z, N) \<notin> set (map fst known_stable)"
  shows "calculate_stability Z N = Inr (spec_score Z N, spec_label Z N)"
proof -
  from assms(1) have z: "Z \<noteq> 0" by simp
  from assms(1,2) have a: "0 < Z + N" by simp
  from stability_eq[OF z a not_known_stable[OF assms(3)]] show ?thesis .
qed

text \<open>At fluorine-18 the score is above the threshold and the label is "stable".\<close>

theorem stability_score_and_label_witness:
  "calculate_stability 9 9 = Inr (spec_score 9 9, ''stable'') \<and> 0.5 < spec_score 9 9"
proof -
  have "((9::int), (9::int)) \<notin> set (map fst known_stable)" by (simp add: known_stable_def)
  from stability_score_and_label[OF _ _ this] F18_stable show ?thesis by simp
qed

section \<open>Stability overrides and the impossible nucleus\<close>

text \<open>
  C5. For every (Z, N) in the eight-entry stability-override table,
  \<open>calculate_stability\<close> returns (0.8, "stable") if the table marks it stable and
  (0.3, "radioactive") otherwise, with no scoring; for every input with \<open>Z = 0\<close> that
  is not in the table it returns (0.0, "impossible"). In particular the result at (6, 6)
  is (0.8, "stable") and the result at (0, 5) is (0.0, "impossible").
\<close>

theorem stability_overrides:
  "(map_of known_stable (Z, N) = Some st \<longrightarrow>
      calculate_stability Z N = Inr (if st then (0.8, ''stable'') else (0.3, ''radioactive'')))
   \<and> (map_of known_stable (0, N') = None \<longrightarrow> calculate_stability 0 N' = Inr (0.0, ''impossible''))
   \<and> length known_stable = 8 \<and> distinct (map fst known_stable)
   \<and> calculate_stability 6 6 = Inr (0.8, ''stable'')
   \<and> calculate_stability 0 5 = Inr (0.0, ''impossible'')"
proof -
  have "calculate_stability 6 6 = Inr (0.8, ''stable'')"
    using stability_override[of 6 6 True] by (simp add: known_stable_def)
  moreover have "calculate_stability 0 5 = Inr (0.0, ''impossible'')"
    using stability_impossible[of 5] by (simp add: known_stable_def)
  moreover have "length known_stable = 8 \<and> distinct (map fst known_stable)"
    by (simp add: known_stable_def)
  ultimately show ?thesis using stability_override[of Z N st] stability_impossible[of N']
    by (cases st) simp_all
qed

text \<open>The table entry of carbon-14, marked unstable, and seven neutrons without a proton.\<close>

theorem stability_overrides_witness:
  "calculate_stability 6 8 = Inr (0.3, ''radioactive'')
   \<and> calculate_stability 0 7 = Inr (0, ''impossible'')"
  using stability_overrides[of 6 8 False 7] by (simp add: known_stable_def)

section \<open>The score lies in the unit interval\<close>

text \<open>
  C6. For every \<open>Z \<ge> 1\<close> and \<open>N \<ge> 0\<close>, \<open>calculate_stability\<close> returns a score
  in the closed interval [0, 1], on the override path as on the clamped heuristic path.
\<close>

theorem stability_score_clamped:
  assumes "1 \<le> Z" and "0 \<le> N"
  shows "\<exists>s d. calculate_stability Z N = Inr (s, d) \<and> 0 \<le> s \<and> s \<le> 1"
proof (cases "map_of known_stable (Z, N)")
  case (Some st)
  define s :: real where "s = (if st then 0.8 else 0.3)"
  have "0 \<le> s \<and> s \<le> 1" by (simp add: s_def)
  with stability_override[OF Some] show ?thesis unfolding s_def[symmetric] by blast
next
  case None
  from assms have "Z \<noteq> 0" "0 < Z + N" by simp_all
  from stability_eq[OF this None] score_spec_range[of Z N] show ?thesis by blast
qed

text \<open>The heuristic path at fluorine-18 and the override path at carbon-12.\<close>

theorem stability_score_clamped_witness:
  "(\<exists>s d. calculate_stability 9 9 = Inr (s, d) \<and> 0 \<le> s \<and> s \<le> 1)
   \<and> (\<exists>s d. calculate_stability 6 6 = Inr (s, d) \<and> 0 \<le> s \<and> s \<le> 1)"
  using stability_score_clamped[of 9 9] stability_score_clamped[of 6 6] by simp

section \<open>Negative proton and neutron counts\<close>



section \<open>The medical search\<close>

text \<open>
  C7. \<open>find_medical_isotopes\<close> sweeps, for each (symbol, Z) of the element table, N over
  the half-open window from \<open>Z - 10\<close> to \<open>Z + 20\<close>, and returns the first 20 of
  the accepted candidates in the order of their relevance key. So it returns at most 20
  candidates, every returned candidate flagged as known medical has stability exactly 0.4,
  and in the returned order every known candidate precedes every other one, candidates
  with the same flag being ordered by the distance of their stability from 0.4.
\<close>

theorem medical_search_result:
  "\<exists>ms. find_medical_isotopes = Inr ms
     \<and> ms = take 20 (sort_key relevance_key (concat (map accepted (sweep elements_to_check))))
     \<and> set (sweep elements_to_check) =
         {(el, Z, N). (el, Z) \<in> set elements_to_check \<and> Z - 10 \<le> N \<and> N < Z + 20}
     \<and> length ms \<le> 20
     \<and> (\<forall>c\<in>set ms. iso_is_known_medical c \<longrightarrow> iso_stability c = 0.4)
     \<and> (\<forall>i j. i < j \<and> j < length ms \<longrightarrow>
           relevance_key (ms ! i) \<le> relevance_key (ms ! j)
           \<and> (iso_is_known_medical (ms ! j) \<longrightarrow> iso_is_known_medical (ms ! i))
           \<and> (iso_is_known_medical (ms ! i) = iso_is_known_medical (ms ! j) \<longrightarrow>
                \<bar>iso_stability (ms ! i) - 0.4\<bar> \<le> \<bar>iso_stability (ms ! j) - 0.4\<bar>))"
proof -
  let ?all = "concat (map accepted (sweep elements_to_check))"
  define ms where "ms = take 20 (sort_key relevance_key ?all)"
  have f: "find_medical_isotopes = Inr ms" unfolding ms_def by (rule find_eq)
  have len: "length ms \<le> 20" by (simp add: ms_def)
  have known: "\<forall>c\<in>set ms. iso_is_known_medical c \<longrightarrow> iso_stability c = 0.4"
  proof
    fix c assume "c \<in> set ms"
    then have "c \<in> set ?all" unfolding ms_def using set_take_subset by fastforce
    from in_all_accepted[OF this] obtain el Z N where "c \<in> set (accepted (el, Z, N))"
      by blast
    from accepted_props(3)[OF this]
    show "iso_is_known_medical c \<longrightarrow> iso_stability c = 0.4" by blast
  qed
  have "sorted (map relevance_key (sort_key relevance_key ?all))" by simp
  then have "sorted (take 20 (map relevance_key (sort_key relevance_key ?all)))"
    by (rule sorted_wrt_take)
  then have srt: "sorted (map relevance_key ms)" by (simp add: ms_def take_map)
  have ord: "\<forall>i j. i < j \<and> j < length ms \<longrightarrow>
           relevance_key (ms ! i) \<le> relevance_key (ms ! j)
           \<and> (iso_is_known_medical (ms ! j) \<longrightarrow> iso_is_known_medical (ms ! i))
           \<and> (iso_is_known_medical (ms ! i) = iso_is_known_medical (ms ! j) \<longrightarrow>
                \<bar>iso_stability (ms ! i) - 0.4\<bar> \<le> \<bar>iso_stability (ms ! j) - 0.4\<bar>)"
  proof (intro allI impI)
    fix i j assume ij: "i < j \<and> j < length ms"
    then have "map relevance_key ms ! i \<le> map relevance_key ms ! j"
      using srt by (simp add: sorted_iff_nth_mono del: nth_map)
    with ij have k: "relevance_key (ms ! i) \<le> relevance_key (ms ! j)" by simp
    from k key_order[OF k]
    show "relevance_key (ms ! i) \<le> relevance_key (ms ! j)
           \<and> (iso_is_known_medical (ms ! j) \<longrightarrow> iso_is_known_medical (ms ! i))
           \<and> (iso_is_known_medical (ms ! i) = iso_is_known_medical (ms ! j) \<longrightarrow>
                \<bar>iso_stability (ms ! i) - 0.4\<bar> \<le> \<bar>iso_stability (ms ! j) - 0.4\<bar>)"
      by blast
  qed
  from f len known ord set_sweep[of elements_to_check] show ?thesis
    unfolding ms_def[symmetric] by (intro exI[of _ ms] conjI) (rule refl | assumption)+
qed

text \<open>
  The search returns fluorine-18 first and a second known medical isotope next, both
  before any other candidate.
\<close>

theorem medical_search_result_witness:
  "\<exists>ms. find_medical_isotopes = Inr ms \<and> 2 \<le> length ms
     \<and> ms ! 0 = f18 \<and> iso_is_known_medical (ms ! 0) \<and> iso_stability (ms ! 0) = 0.4
     \<and> iso_is_known_medical (ms ! 1)
     \<and> relevance_key (ms ! 0) \<le> relevance_key (ms ! 1)
     \<and> (''F'', 9, 9) \<in> set (sweep elements_to_check)"
proof -
  from medical_search_result obtain ms where
    f: "find_medical_isotopes = Inr ms"
    and sw: "set (sweep elements_to_check) =
         {(el, Z, N). (el, Z) \<in> set elements_to_check \<and> Z - 10 \<le> N \<and> N < Z + 20}"
    and known: "\<forall>c\<in>set ms. iso_is_known_medical c \<longrightarrow> iso_stability c = 0.4"
    and ord: "\<forall>i j. i < j \<and> j < length ms \<longrightarrow>
           relevance_key (ms ! i) \<le> relevance_key (ms ! j)
           \<and> (iso_is_known_medical (ms ! j) \<longrightarrow> iso_is_known_medical (ms ! i))
           \<and> (iso_is_known_medical (ms ! i) = iso_is_known_medical (ms ! j) \<longrightarrow>
                \<bar>iso_stability (ms ! i) - 0.4\<bar> \<le> \<bar>iso_stability (ms ! j) - 0.4\<bar>)"
    by blast
  from result_prefix obtain ms' c2 c3 c4 where
    f': "find_medical_isotopes = Inr ms'" and p': "take 4 ms' = [f18, c2, c3, c4]"
    and c2: "iso_is_known_medical c2" by blast
  from f'[symmetric] f have "(Inr ms' :: py_error + isotope list) = Inr ms" by (rule trans)
  then have "ms' = ms" by (rule Inr_inject)
  with p' have p: "take 4 ms = [f18, c2, c3, c4]" by simp
  then have "length (take 4 ms) = 4" by simp
  then have len: "4 \<le> length ms" by simp
  have "take 4 ms ! 0 = ms ! 0" by (rule nth_take) simp
  with p have m0: "ms ! 0 = f18" by simp
  have "take 4 ms ! 1 = ms ! 1" by (rule nth_take) simp
  with p have m1: "ms ! 1 = c2" by simp
  have k0: "iso_is_known_medical (ms ! 0)" by (simp add: m0 f18_def)
  have "0 < length ms" using len by linarith
  then have "ms ! 0 \<in> set ms" by (rule nth_mem)
  with known k0 have s0: "iso_stability (ms ! 0) = 0.4" by blast
  have "(0::nat) < 1 \<and> 1 < length ms" using len by linarith
  with ord have o: "relevance_key (ms ! 0) \<le> relevance_key (ms ! 1)" by blast
  have "(''F'', 9, 9) \<in> set (sweep elements_to_check)"
    unfolding sw by (simp add: elements_to_check_def)
  moreover have "2 \<le> length ms" using len by linarith
  moreover have "iso_is_known_medical (ms ! 1)" using m1 c2 by simp
  ultimately show ?thesis using f m0 k0 s0 o by (intro exI[of _ ms]) blast
qed

section \<open>What the search does at a negative neutron count\<close>


section \<open>Forcing the stability of a known medical isotope\<close>

text \<open>
  C10. When the search forces the stability of a known medical candidate to 0.4 it does
  not compute the decay-mode label again: the label is the one \<open>calculate_stability\<close>
  derived from its own score. The half-life is computed from the forced value and is
  \<open>exp (10 * 0.4) / 100\<close> for every known medical candidate. All other fields are what
  they are without the forcing. This holds for the candidate an iteration builds and for
  every known candidate of the returned list.
\<close>

theorem forced_stability_frame:
  assumes "map_of known_medical (el, Z + N) \<noteq> None"
    and "calculate_stability Z N = Inr (s, d)" and "calculate_binding_energy Z N = Inr be"
  shows "medical_candidate el Z N =
     Inr (Some \<lparr>iso_symbol = el @ ''-'' @ str_int (Z + N),
                iso_Z = Z, iso_N = N, iso_A = Z + N,
                iso_stability = 0.4,
                iso_decay_mode = d,
                iso_binding_energy = be,
                iso_half_life_hours = exp (10 * 0.4) / 100,
                iso_is_known_medical = True,
                iso_medical_use =
                  (case map_of known_medical (el, Z + N) of
                     Some (_, _, use) \<Rightarrow> use | None \<Rightarrow> ''Research''),
                iso_mhm_optimized = True\<rparr>)
   \<and> (\<forall>ms c. find_medical_isotopes = Inr ms \<and> c \<in> set ms \<and> iso_is_known_medical c \<longrightarrow>
         iso_stability c = 0.4 \<and> iso_half_life_hours c = exp (10 * 0.4) / 100
         \<and> (\<exists>s'. calculate_stability (iso_Z c) (iso_N c) = Inr (s', iso_decay_mode c)))"
proof -
  have k: "is_known_key (el, Z, N)" using assms(1) by (simp add: is_known_key_def)
  have a: "medical_candidate el Z N =
     Inr (Some \<lparr>iso_symbol = el @ ''-'' @ str_int (Z + N),
                iso_Z = Z, iso_N = N, iso_A = Z + N,
                iso_stability = 0.4,
                iso_decay_mode = d,
                iso_binding_energy = be,
                iso_half_life_hours = exp (10 * 0.4) / 100,
                iso_is_known_medical = True,
                iso_medical_use =
                  (case map_of known_medical (el, Z + N) of
                     Some (_, _, use) \<Rightarrow> use | None \<Rightarrow> ''Research''),
                iso_mhm_optimized = True\<rparr>)"
    unfolding candidate_eq[OF assms(2,3)] forced_half_life_def
    by (simp only: k simp_thms if_True)
  have b: "\<forall>ms c. find_medical_isotopes = Inr ms \<and> c \<in> set ms \<and> iso_is_known_medical c \<longrightarrow>
         iso_stability c = 0.4 \<and> iso_half_life_hours c = exp (10 * 0.4) / 100
         \<and> (\<exists>s'. calculate_stability (iso_Z c) (iso_N c) = Inr (s', iso_decay_mode c))"
  proof (intro allI impI)
    fix ms c
    assume h: "find_medical_isotopes = Inr ms \<and> c \<in> set ms \<and> iso_is_known_medical c"
    let ?all = "concat (map accepted (sweep elements_to_check))"
    from h[unfolded find_eq] have "ms = take 20 (sort_key relevance_key ?all)" by auto
    with h have "c \<in> set ?all" using set_take_subset by fastforce
    from in_all_accepted[OF this] obtain el' Z' N' where
      c: "c \<in> set (accepted (el', Z', N'))" by blast
    from accepted_props(3,4)[OF c] accepted_label[OF c] h
    show "iso_stability c = 0.4 \<and> iso_half_life_hours c = exp (10 * 0.4) / 100
         \<and> (\<exists>s'. calculate_stability (iso_Z c) (iso_N c) = Inr (s', iso_decay_mode c))"
      by (simp add: forced_half_life_def)
  qed
  from a b show ?thesis by (rule conjI)
qed

text \<open>
  Fluorine-18 is such a candidate: its computed score is above 0.5, so its label is
  "stable", and it is returned with stability 0.4 and that label.
\<close>

theorem forced_stability_frame_witness:
  "medical_candidate ''F'' 9 9 = Inr (Some f18)
   \<and> iso_stability f18 = 0.4 \<and> iso_decay_mode f18 = ''stable''
   \<and> iso_half_life_hours f18 = exp (10 * 0.4) / 100
   \<and> calculate_stability 9 9 = Inr (spec_score 9 9, ''stable'') \<and> 0.5 < spec_score 9 9
   \<and> (\<exists>ms. find_medical_isotopes = Inr ms \<and> f18 \<in> set ms
         \<and> (\<exists>s'. calculate_stability (iso_Z f18) (iso_N f18) = Inr (s', iso_decay_mode f18)))"
proof -
  have k: "map_of known_medical (''F'', 9 + 9) \<noteq> None" by (simp add: known_medical_def)
  note t = forced_stability_frame[OF k f18_stability f18_binding_energy]
  from t have a: "medical_candidate ''F'' 9 9 = Inr (Some f18)"
    by (simp add: f18_def str_int_18 known_medical_def)
  from result_prefix obtain ms c2 c3 c4 where
    f: "find_medical_isotopes = Inr ms" and p: "take 4 ms = [f18, c2, c3, c4]" by blast
  have "f18 \<in> set (take 4 ms)" unfolding p by simp
  then have m: "f18 \<in> set ms" by (rule in_set_takeD)
  have kf: "iso_is_known_medical f18" by (simp add: f18_def)
  from t f m kf have
    "\<exists>s'. calculate_stability (iso_Z f18) (iso_N f18) = Inr (s', iso_decay_mode f18)"
    by blast
  with a f m f18_stability F18_stable(1) show ?thesis by (auto simp: f18_def)
qed

section \<open>Validation against the reference set\<close>




end
